theory Spec2Isabelle
  imports Complex_Main
begin

section \<open>Python values\<close>

text \<open>
  The module \<^verbatim>\<open>helper_functions.py\<close> holds three functions: \<^verbatim>\<open>greet\<close>,
  \<^verbatim>\<open>calculate_square\<close> and \<^verbatim>\<open>fibonacci\<close>. Python's unbounded integers are
  \<^typ>\<open>int\<close>, its strings are \<^typ>\<open>string\<close>, its lists of integers are \<^typ>\<open>int list\<close>.
  An exception is a value of \<open>py_error\<close>, returned on the left of a sum.
  A \<^typ>\<open>string\<close> stands for the UTF-8 bytes of a Python string; joining strings joins
  their bytes, and the functions below do nothing else with text.
\<close>

datatype py_error = IndexError | OverflowError | ZeroDivisionError

text \<open>
  The subscript \<^verbatim>\<open>xs[i]\<close> on a list: an index from \<open>0\<close> to \<open>len - 1\<close> reads from the
  front, an index from \<open>-len\<close> to \<open>-1\<close> reads from the back, every other index raises
  \<^verbatim>\<open>IndexError\<close>.
\<close>

definition getitem :: "int list \<Rightarrow> int \<Rightarrow> py_error + int" where
  "getitem xs i =
     (if 0 \<le> i \<and> i < int (length xs) then Inr (xs ! nat i)
      else if i < 0 \<and> - int (length xs) \<le> i then Inr (xs ! nat (i + int (length xs)))
      else Inl IndexError)"

section \<open>greet\<close>

text \<open>
  \<^verbatim>\<open>return f"Hello, {name}! Welcome to Jupyter notebooks!"\<close>

  An f-string is a sequence of literal pieces and replacement fields; its value joins
  the pieces, each field replaced by the formatted value of its expression. The field
  \<^verbatim>\<open>{name}\<close> has no conversion and no format specification, and formatting a string
  with the empty specification gives the string itself.
\<close>

datatype fpiece = Literal string | Field string

fun piece_text :: "fpiece \<Rightarrow> string" where
  "piece_text (Literal s) = s"
| "piece_text (Field v) = v"

definition fstring :: "fpiece list \<Rightarrow> string" where
  "fstring ps = concat (map piece_text ps)"

definition format_str :: "string \<Rightarrow> string" where
  "format_str s = s"

definition greet :: "string \<Rightarrow> string" where
  "greet name =
     fstring [Literal ''Hello, '', Field (format_str name),
              Literal ''! Welcome to Jupyter notebooks!'']"

section \<open>calculate_square\<close>

text \<open>
  \<^verbatim>\<open>return number ** 2\<close>

  The argument is an \<^verbatim>\<open>int\<close> or a \<^verbatim>\<open>float\<close>. The values of \<^verbatim>\<open>float\<close> and the
  arithmetic on them belong to the host, so the type of floats is the parameter \<open>'f\<close>
  and the two operations of the host that \<^verbatim>\<open>**\<close> with an integer exponent can reach
  are parameters of the model: \<open>fpow x e\<close> is a float raised to the integer \<open>e\<close> (a float, or
  an exception), and \<open>tofloat\<close> converts an integer to a float (or raises).

  \<^verbatim>\<open>**\<close> with an integer exponent: an integer base with an exponent that is not negative
  gives the exact integer power; an integer base with a negative exponent is converted
  and gives a float; a float base gives a float.
\<close>

datatype 'f number = PyInt int | PyFloat 'f

datatype kind = IntKind | FloatKind

fun kind_of :: "'f number \<Rightarrow> kind" where
  "kind_of (PyInt _) = IntKind"
| "kind_of (PyFloat _) = FloatKind"

definition as_float :: "py_error + 'f \<Rightarrow> py_error + 'f number" where
  "as_float r = (case r of Inl e \<Rightarrow> Inl e | Inr x \<Rightarrow> Inr (PyFloat x))"

definition py_pow ::
  "('f \<Rightarrow> int \<Rightarrow> py_error + 'f) \<Rightarrow> (int \<Rightarrow> py_error + 'f) \<Rightarrow> 'f number \<Rightarrow> int
     \<Rightarrow> py_error + 'f number" where
  "py_pow fpow tofloat b e =
     (case b of
        PyInt i \<Rightarrow>
          if 0 \<le> e then Inr (PyInt (i ^ nat e))
          else (case tofloat i of Inl err \<Rightarrow> Inl err | Inr x \<Rightarrow> as_float (fpow x e))
      | PyFloat x \<Rightarrow> as_float (fpow x e))"

definition calculate_square ::
  "('f \<Rightarrow> int \<Rightarrow> py_error + 'f) \<Rightarrow> (int \<Rightarrow> py_error + 'f) \<Rightarrow> 'f number
     \<Rightarrow> py_error + 'f number" where
  "calculate_square fpow tofloat number = py_pow fpow tofloat number 2"

section \<open>fibonacci\<close>

text \<open>
  \<^verbatim>\<open>
  if n <= 0: return []
  elif n == 1: return [0]
  elif n == 2: return [0, 1]
  fib_sequence = [0, 1]
  for i in range(2, n):
      fib_sequence.append(fib_sequence[i-1] + fib_sequence[i-2])
  return fib_sequence
  \<close>

  The loop runs \<open>i\<close> over \<open>2, 3, ..., n - 1\<close>: the model enters the body while \<open>i < n\<close> and
  continues with \<open>i + 1\<close>. The local list \<^verbatim>\<open>fib_sequence\<close> is passed along. Beside it
  the model carries a log that the program does not have and that no branch reads:
  the number of times the body was entered and, for every subscript evaluated, the index
  with the length of the list at that moment.
\<close>

record log =
  iterations :: nat
  subscripts :: "(int \<times> nat) list"

definition start_log :: log where
  "start_log = \<lparr>iterations = 0, subscripts = []\<rparr>"

definition entered :: "log \<Rightarrow> log" where
  "entered l = l\<lparr>iterations := Suc (iterations l)\<rparr>"

definition subscripted :: "int \<Rightarrow> int list \<Rightarrow> log \<Rightarrow> log" where
  "subscripted i xs l = l\<lparr>subscripts := subscripts l @ [(i, length xs)]\<rparr>"

text \<open>
  The body \<^verbatim>\<open>fib_sequence.append(fib_sequence[i-1] + fib_sequence[i-2])\<close>: the left
  operand is read first, then the right one, then the sum is appended.
\<close>

definition loop_body :: "int \<Rightarrow> int list \<times> log \<Rightarrow> py_error + int list \<times> log" where
  "loop_body i s =
     (case s of (fib_sequence, l) \<Rightarrow>
        (case getitem fib_sequence (i - 1) of
           Inl e \<Rightarrow> Inl e
         | Inr a \<Rightarrow>
             (case getitem fib_sequence (i - 2) of
                Inl e \<Rightarrow> Inl e
              | Inr b \<Rightarrow>
                  Inr (fib_sequence @ [a + b],
                       subscripted (i - 2) fib_sequence
                         (subscripted (i - 1) fib_sequence (entered l))))))"

function fib_loop :: "int \<Rightarrow> int \<Rightarrow> int list \<times> log \<Rightarrow> py_error + int list \<times> log" where
  "fib_loop i n s =
     (if i < n then
        (case loop_body i s of Inl e \<Rightarrow> Inl e | Inr s' \<Rightarrow> fib_loop (i + 1) n s')
      else Inr s)"
  by pat_completeness auto
termination
  by (relation "measure (\<lambda>(i, n, s). nat (n - i))") auto

declare fib_loop.simps [simp del]

definition fibonacci_run :: "int \<Rightarrow> py_error + int list \<times> log" where
  "fibonacci_run n =
     (if n \<le> 0 then Inr ([], start_log)
      else if n = 1 then Inr ([0], start_log)
      else if n = 2 then Inr ([0, 1], start_log)
      else fib_loop 2 n ([0, 1], start_log))"

text \<open>What the caller gets: the list, or the exception.\<close>

definition fibonacci :: "int \<Rightarrow> py_error + int list" where
  "fibonacci n = (case fibonacci_run n of Inl e \<Rightarrow> Inl e | Inr (fs, l) \<Rightarrow> Inr fs)"

text \<open>
  The reference sequence, in the words of the specification: \<open>F(0) = 0\<close>, \<open>F(1) = 1\<close>,
  \<open>F(k) = F(k-1) + F(k-2)\<close>, and its first \<open>n\<close> terms.
\<close>

fun spec_F :: "nat \<Rightarrow> int" where
  "spec_F 0 = 0"
| "spec_F (Suc 0) = 1"
| "spec_F (Suc (Suc k)) = spec_F (Suc k) + spec_F k"

definition first_terms :: "nat \<Rightarrow> int list" where
  "first_terms n = map spec_F [0..<n]"

text \<open>
  Every subscript in the log lies between \<open>0\<close> and the length of the list it read, so
  none of them counted from the back and none raised.
\<close>

definition in_bounds :: "log \<Rightarrow> bool" where
  "in_bounds l = list_all (\<lambda>(j, len). 0 \<le> j \<and> j < int len) (subscripts l)"

text \<open>
  The two subscripts the body evaluates at \<open>i\<close> when the list has \<open>i\<close> elements, in the
  order of evaluation.
\<close>

definition reads_at :: "int \<Rightarrow> (int \<times> nat) list" where
  "reads_at i = [(i - 1, nat i), (i - 2, nat i)]"

section \<open>The functions in a store of list objects\<close>














section \<open>The product of a number with itself\<close>

text \<open>
  The specification compares \<^verbatim>\<open>calculate_square(x)\<close> with \<^verbatim>\<open>x * x\<close>. Python's
  \<^verbatim>\<open>*\<close> on numbers: two integers give their exact product; two floats give the host's
  product \<open>fmul\<close>, which raises nothing; an integer beside a float is converted first.
\<close>

definition py_mul ::
  "('f \<Rightarrow> 'f \<Rightarrow> 'f) \<Rightarrow> (int \<Rightarrow> py_error + 'f) \<Rightarrow> 'f number \<Rightarrow> 'f number
     \<Rightarrow> py_error + 'f number" where
  "py_mul fmul tofloat a b =
     (case (a, b) of
        (PyInt i, PyInt j) \<Rightarrow> Inr (PyInt (i * j))
      | (PyFloat x, PyFloat y) \<Rightarrow> Inr (PyFloat (fmul x y))
      | (PyInt i, PyFloat y) \<Rightarrow>
          (case tofloat i of Inl err \<Rightarrow> Inl err | Inr x \<Rightarrow> Inr (PyFloat (fmul x y)))
      | (PyFloat x, PyInt j) \<Rightarrow>
          (case tofloat j of Inl err \<Rightarrow> Inl err | Inr y \<Rightarrow> Inr (PyFloat (fmul x y))))"

section \<open>A host: CPython on IEEE-754 doubles\<close>

text \<open>
  A double is \<open>Finite s m e\<close>, the number \<open>m * 2 ^ e\<close> with the sign \<open>s\<close> (true for
  minus), \<open>m < 2 ^ 53\<close> and \<open>-1074 \<le> e \<le> 971\<close>, or an infinity with its sign, or NaN.
  \<open>round_double s num den ex\<close> is the double nearest to \<open>(num / den) * 2 ^ ex\<close> with the
  sign \<open>s\<close>, a tie going to the even significand and everything from
  \<open>2 ^ 1024 - 2 ^ 970\<close> on to infinity. \<open>bitlen\<close> counts binary digits.
\<close>

datatype double = Finite bool nat int | Infinity bool | NaN

fun bitlen :: "nat \<Rightarrow> nat" where
  "bitlen n = (if n = 0 then 0 else Suc (bitlen (n div 2)))"

declare bitlen.simps [simp del]

definition round_double :: "bool \<Rightarrow> nat \<Rightarrow> nat \<Rightarrow> int \<Rightarrow> double" where
  "round_double s num den ex =
     (if num = 0 then Finite s 0 (- 1074)
      else
        (let d = int (bitlen num) - int (bitlen den);
             fl = (if den * 2 ^ nat d \<le> num * 2 ^ nat (- d) then d else d - 1) + ex;
             e = max (fl - 52) (- 1074);
             n' = num * 2 ^ nat (ex - e);
             d' = den * 2 ^ nat (e - ex);
             q = n' div d';
             r = n' mod d';
             m = (if d' < 2 * r \<or> (d' = 2 * r \<and> odd q) then q + 1 else q);
             e' = (if m = 2 ^ 53 then e + 1 else e);
             m' = (if m = 2 ^ 53 then 2 ^ 52 else m)
         in if 971 < e' then Infinity s else Finite s m' e'))"

definition is_finite :: "double \<Rightarrow> bool" where
  "is_finite x = (case x of Finite s m e \<Rightarrow> True | _ \<Rightarrow> False)"

definition is_infinite :: "double \<Rightarrow> bool" where
  "is_infinite x = (case x of Infinity s \<Rightarrow> True | _ \<Rightarrow> False)"

text \<open>
  The product of two doubles, as the C operator \<^verbatim>\<open>*\<close> that CPython's float
  multiplication uses: NaN from a NaN or from infinity times zero, otherwise the exact
  product rounded; an overflow gives infinity and raises nothing.
\<close>

fun double_mul :: "double \<Rightarrow> double \<Rightarrow> double" where
  "double_mul NaN y = NaN"
| "double_mul x NaN = NaN"
| "double_mul (Infinity s) (Infinity t) = Infinity (s \<noteq> t)"
| "double_mul (Infinity s) (Finite t n f) = (if n = 0 then NaN else Infinity (s \<noteq> t))"
| "double_mul (Finite s m e) (Infinity t) = (if m = 0 then NaN else Infinity (s \<noteq> t))"
| "double_mul (Finite s m e) (Finite t n f) = round_double (s \<noteq> t) (m * n) 1 (e + f)"

text \<open>
  An integer as a double, rounded to the nearest; an integer that rounds to infinity
  raises \<^verbatim>\<open>OverflowError\<close>. \<open>int_value\<close> reads the integer back from such a double.
\<close>

definition double_of_int :: "int \<Rightarrow> py_error + double" where
  "double_of_int i =
     (case round_double (i < 0) (nat \<bar>i\<bar>) 1 0 of
        Infinity s \<Rightarrow> Inl OverflowError
      | d \<Rightarrow> Inr d)"

definition int_value :: "double \<Rightarrow> int" where
  "int_value d =
     (case d of
        Finite s m e \<Rightarrow> (if s then - 1 else 1) * ((int m * 2 ^ nat e) div 2 ^ nat (- e))
      | _ \<Rightarrow> 0)"

text \<open>
  A float raised to an integer, as CPython's float power does it: the exponent is
  converted to a double \<open>k\<close>; \<open>k = 0\<close> gives \<open>1.0\<close>; NaN gives NaN; an infinity gives an
  infinity or a zero; a zero raises \<^verbatim>\<open>ZeroDivisionError\<close> for a negative \<open>k\<close> and gives a
  zero otherwise; \<open>1.0\<close> and \<open>-1.0\<close> give \<open>1.0\<close> or \<open>-1.0\<close>; every other base goes to the C library's
  \<^verbatim>\<open>pow\<close>, and a result of infinity there raises \<^verbatim>\<open>OverflowError\<close>, while a result
  that underflows is returned. The sign is negative for a negative base and an odd
  \<open>k\<close>. The library's \<^verbatim>\<open>pow\<close> is taken as correctly rounded, the double nearest to the
  exact power; a C library may miss that by a unit in the last place, which moves no
  result used below: \<^verbatim>\<open>1.5 ** 2\<close> is exact, and the exact square of \<^verbatim>\<open>1e200\<close> is
  far beyond the largest double.
\<close>

definition double_pow :: "double \<Rightarrow> int \<Rightarrow> py_error + double" where
  "double_pow x e =
     (case double_of_int e of
        Inl err \<Rightarrow> Inl err
      | Inr w \<Rightarrow>
          (let k = int_value w in
           if k = 0 then Inr (Finite False (2 ^ 52) (- 52))
           else
             (case x of
                NaN \<Rightarrow> Inr NaN
              | Infinity s \<Rightarrow>
                  Inr (if 0 < k then Infinity (s \<and> odd k) else Finite (s \<and> odd k) 0 (- 1074))
              | Finite s m ex \<Rightarrow>
                  if m = 0 then
                    (if k < 0 then Inl ZeroDivisionError
                     else Inr (Finite (s \<and> odd k) 0 (- 1074)))
                  else if m = 2 ^ 52 \<and> ex = - 52 then Inr (Finite (s \<and> odd k) (2 ^ 52) (- 52))
                  else
                    (let p = nat \<bar>k\<bar>;
                         r = (if 0 < k then round_double (s \<and> odd k) (m ^ p) 1 (ex * k)
                              else round_double (s \<and> odd k) 1 (m ^ p) (ex * k))
                     in case r of Infinity t \<Rightarrow> Inl OverflowError | _ \<Rightarrow> Inr r))))"

text \<open>
  The float \<^verbatim>\<open>1e200\<close> is the double \<open>5883593420661338 * 2 ^ 612\<close>, and \<^verbatim>\<open>1.5\<close> is
  \<open>6755399441055744 * 2 ^ (-52)\<close>.
\<close>

definition float_1e200 :: double where
  "float_1e200 = Finite False 5883593420661338 612"

definition float_1_5 :: double where
  "float_1_5 = Finite False 6755399441055744 (- 52)"

section \<open>The reference sequence\<close>

lemma length_first_terms: "length (first_terms k) = k"
  by (simp add: first_terms_def)

lemma nth_first_terms: "j < k \<Longrightarrow> first_terms k ! j = spec_F j"
  by (simp add: first_terms_def)

lemma first_terms_Suc: "first_terms (Suc k) = first_terms k @ [spec_F k]"
  by (simp add: first_terms_def)

lemma first_terms_0: "first_terms 0 = []"
  by (simp add: first_terms_def)

lemma first_terms_1: "first_terms (Suc 0) = [0]"
  by (simp add: first_terms_Suc first_terms_0)

lemma first_terms_2: "first_terms (Suc (Suc 0)) = [0, 1]"
  by (simp add: first_terms_Suc first_terms_0)

lemma spec_F_nonneg: "0 \<le> spec_F k"
  by (induction k rule: spec_F.induct) simp_all

lemma spec_F_step: "spec_F k \<le> spec_F (Suc k)"
proof (cases k)
  case 0
  then show ?thesis by simp
next
  case (Suc j)
  have "0 \<le> spec_F j" by (rule spec_F_nonneg)
  then show ?thesis using Suc by simp
qed

lemma spec_F_mono: "j \<le> k \<Longrightarrow> spec_F j \<le> spec_F k"
  by (rule lift_Suc_mono_le) (simp_all add: spec_F_step)

lemma sorted_first_terms: "sorted (first_terms k)"
  by (simp add: first_terms_def sorted_map sorted_wrt_iff_nth_less spec_F_mono)

lemma getitem_first_terms:
  "0 \<le> j \<Longrightarrow> j < int k \<Longrightarrow> getitem (first_terms k) j = Inr (spec_F (nat j))"
  by (simp add: getitem_def length_first_terms nth_first_terms)

section \<open>The loop\<close>

lemma loop_body_first_terms:
  assumes "2 \<le> i"
  shows "loop_body i (first_terms (nat i), l) =
           Inr (first_terms (nat (i + 1)),
                subscripted (i - 2) (first_terms (nat i))
                  (subscripted (i - 1) (first_terms (nat i)) (entered l)))"
proof -
  define k where "k = nat (i - 2)"
  have i: "i = int k + 2" using assms by (simp add: k_def)
  have a: "getitem (first_terms (nat i)) (i - 1) = Inr (spec_F (Suc k))"
    using i by (simp add: getitem_first_terms nat_add_distrib)
  have b: "getitem (first_terms (nat i)) (i - 2) = Inr (spec_F k)"
    using i by (simp add: getitem_first_terms)
  have "nat (i + 1) = Suc (Suc (Suc k))" and "nat i = Suc (Suc k)"
    using i by simp_all
  then have n: "first_terms (nat (i + 1)) = first_terms (nat i) @ [spec_F (Suc k) + spec_F k]"
    by (simp add: first_terms_Suc)
  show ?thesis
    by (simp add: loop_body_def a b n)
qed

text \<open>What one pass through the body adds to the log.\<close>

lemma logged_step:
  assumes "2 \<le> i" and "in_bounds l" and "length (subscripts l) = 2 * iterations l"
  defines "l' \<equiv> subscripted (i - 2) (first_terms (nat i))
                  (subscripted (i - 1) (first_terms (nat i)) (entered l))"
  shows "in_bounds l'" and "length (subscripts l') = 2 * iterations l'"
    and "iterations l' = Suc (iterations l)"
    and "subscripts l' = subscripts l @ reads_at i"
  using assms
  by (simp_all add: in_bounds_def subscripted_def entered_def length_first_terms reads_at_def)

text \<open>
  Entered at \<open>i\<close> with the first \<open>i\<close> terms in the list, the loop leaves with the first
  \<open>n\<close> terms, after \<open>n - i\<close> more passes through the body, two subscripts a pass, each
  of them in range: at \<open>j\<close> the subscripts \<open>j - 1\<close> and \<open>j - 2\<close> of a list of length \<open>j\<close>.
\<close>

lemma fib_loop_closed:
  "2 \<le> i \<Longrightarrow> i \<le> n \<Longrightarrow> in_bounds l \<Longrightarrow> length (subscripts l) = 2 * iterations l \<Longrightarrow>
   \<exists>l'. fib_loop i n (first_terms (nat i), l) = Inr (first_terms (nat n), l')
        \<and> iterations l' = iterations l + nat (n - i)
        \<and> in_bounds l' \<and> length (subscripts l') = 2 * iterations l'
        \<and> subscripts l' = subscripts l @ concat (map reads_at [i..n - 1])"
proof (induction "nat (n - i)" arbitrary: i l)
  case 0
  then have "i = n" by simp
  then show ?case using 0 by (simp add: fib_loop.simps)
next
  case (Suc d)
  let ?l = "subscripted (i - 2) (first_terms (nat i))
              (subscripted (i - 1) (first_terms (nat i)) (entered l))"
  have lt: "i < n" using Suc.hyps(2) by simp
  have d: "d = nat (n - (i + 1))" using Suc.hyps(2) by simp
  note step = logged_step [OF Suc.prems(1) Suc.prems(3) Suc.prems(4)]
  have "\<exists>l'. fib_loop (i + 1) n (first_terms (nat (i + 1)), ?l) = Inr (first_terms (nat n), l')
        \<and> iterations l' = iterations ?l + nat (n - (i + 1))
        \<and> in_bounds l' \<and> length (subscripts l') = 2 * iterations l'
        \<and> subscripts l' = subscripts ?l @ concat (map reads_at [i + 1..n - 1])"
    using Suc.hyps(1) [OF d _ _ step(1) step(2)] Suc.prems(1) lt by simp
  then obtain l' where l':
      "fib_loop (i + 1) n (first_terms (nat (i + 1)), ?l) = Inr (first_terms (nat n), l')"
      "iterations l' = iterations ?l + nat (n - (i + 1))"
      "in_bounds l'" "length (subscripts l') = 2 * iterations l'"
      "subscripts l' = subscripts ?l @ concat (map reads_at [i + 1..n - 1])"
    by blast
  have "fib_loop i n (first_terms (nat i), l) = Inr (first_terms (nat n), l')"
    using lt loop_body_first_terms [OF Suc.prems(1)] l'(1)
    by (subst fib_loop.simps) simp
  moreover have "iterations l' = iterations l + nat (n - i)"
    using l'(2) step(3) lt by simp
  moreover have "[i..n - 1] = i # [i + 1..n - 1]"
    using lt by (simp add: upto_rec1)
  then have "subscripts l' = subscripts l @ concat (map reads_at [i..n - 1])"
    using l'(5) step(4) by simp
  ultimately show ?case using l'(3,4) by blast
qed

lemma start_log_facts:
  "in_bounds start_log" "iterations start_log = 0" "subscripts start_log = []"
  by (simp_all add: in_bounds_def start_log_def)

section \<open>The whole function\<close>

lemma fibonacci_run_closed:
  "\<exists>l. fibonacci_run n = Inr (first_terms (nat n), l)
       \<and> iterations l = nat (n - 2)
       \<and> in_bounds l \<and> length (subscripts l) = 2 * iterations l
       \<and> subscripts l = concat (map reads_at [2..n - 1])"
proof -
  consider "n \<le> 0" | "n = 1" | "n = 2" | "2 < n" by linarith
  then show ?thesis
  proof cases
    case 1
    then show ?thesis
      by (simp add: fibonacci_run_def first_terms_0 start_log_facts)
  next
    case 2
    then show ?thesis
      by (simp add: fibonacci_run_def first_terms_1 start_log_facts)
  next
    case 3
    then show ?thesis
      by (simp add: fibonacci_run_def first_terms_2 numeral_2_eq_2 start_log_facts)
  next
    case 4
    have two: "first_terms (nat 2) = [0, 1]"
      by (simp add: first_terms_2 numeral_2_eq_2)
    have "\<exists>l'. fib_loop 2 n (first_terms (nat 2), start_log) = Inr (first_terms (nat n), l')
        \<and> iterations l' = iterations start_log + nat (n - 2)
        \<and> in_bounds l' \<and> length (subscripts l') = 2 * iterations l'
        \<and> subscripts l' = subscripts start_log @ concat (map reads_at [2..n - 1])"
      using 4 by (intro fib_loop_closed) (simp_all add: start_log_facts)
    then have "\<exists>l'. fib_loop 2 n ([0, 1], start_log) = Inr (first_terms (nat n), l')
        \<and> iterations l' = nat (n - 2)
        \<and> in_bounds l' \<and> length (subscripts l') = 2 * iterations l'
        \<and> subscripts l' = concat (map reads_at [2..n - 1])"
      by (simp only: two start_log_facts add_0 append_Nil)
    then show ?thesis
      using 4 by (simp add: fibonacci_run_def)
  qed
qed

lemma fibonacci_closed: "fibonacci n = Inr (first_terms (nat n))"
proof -
  obtain l where "fibonacci_run n = Inr (first_terms (nat n), l)"
    using fibonacci_run_closed by blast
  then show ?thesis by (simp add: fibonacci_def)
qed

lemma nonneg_first_terms: "x \<in> set (first_terms k) \<Longrightarrow> 0 \<le> x"
  by (auto simp add: first_terms_def spec_F_nonneg)

section \<open>The loop in the store\<close>



section \<open>The squarer on integers\<close>

text \<open>
  On an integer the exponent \<open>2\<close> is not negative, so \<^verbatim>\<open>number ** 2\<close> is the exact
  integer power, which is the product of the number with itself.
\<close>

lemma calculate_square_int:
  "calculate_square fpow tofloat (PyInt x) = Inr (PyInt (x * x))"
  by (simp add: calculate_square_def py_pow_def power2_eq_square)

section \<open>The host's square\<close>

lemma bitlen_numeral [simp]:
  "bitlen 0 = 0"
  "bitlen 1 = 1"
  "bitlen (Suc 0) = 1"
  "bitlen (numeral Num.One) = 1"
  "bitlen (numeral (Num.Bit0 n)) = Suc (bitlen (numeral n))"
  "bitlen (numeral (Num.Bit1 n)) = Suc (bitlen (numeral n))"
proof -
  show "bitlen 0 = 0" by (simp add: bitlen.simps)
  show "bitlen 1 = 1" by (simp add: bitlen.simps)
  show "bitlen (Suc 0) = 1" by (simp add: bitlen.simps)
  show "bitlen (numeral Num.One) = 1" by (simp add: bitlen.simps)
  have "numeral (Num.Bit0 n) div (2 :: nat) = numeral n" by simp
  then show "bitlen (numeral (Num.Bit0 n)) = Suc (bitlen (numeral n))"
    by (subst bitlen.simps) simp
  have "numeral (Num.Bit1 n) div (2 :: nat) = numeral n" by simp
  then show "bitlen (numeral (Num.Bit1 n)) = Suc (bitlen (numeral n))"
    by (subst bitlen.simps) simp
qed

text \<open>The exponent \<open>2\<close> is the double \<open>2.0\<close>, and is read back as \<open>2\<close>.\<close>

lemma double_of_int_2: "double_of_int 2 = Inr (Finite False 4503599627370496 (- 51))"
  by (simp add: double_of_int_def round_double_def Let_def)

lemma int_value_2: "int_value (Finite False 4503599627370496 (- 51)) = 2"
  by (simp add: int_value_def)

lemma round_double_zero: "round_double s 0 den ex = Finite s 0 (- 1074)"
  by (simp add: round_double_def)

lemma double_mul_one:
  "round_double False (4503599627370496 * 4503599627370496) 1 (- 52 + - 52)
     = Finite False 4503599627370496 (- 52)"
  by (simp add: round_double_def Let_def)

text \<open>
  On this host \<^verbatim>\<open>x ** 2\<close> is \<^verbatim>\<open>x * x\<close>, except that a finite \<open>x\<close> whose product is
  infinite raises \<^verbatim>\<open>OverflowError\<close>.
\<close>

lemma double_pow_2:
  "double_pow x 2 =
     (if is_finite x \<and> is_infinite (double_mul x x) then Inl OverflowError
      else Inr (double_mul x x))"
proof (cases x)
  case (Finite s m ex)
  consider "m = 0" | "m = 4503599627370496 \<and> ex = - 52"
    | "m \<noteq> 0 \<and> \<not> (m = 4503599627370496 \<and> ex = - 52)"
    by blast
  then show ?thesis
  proof cases
    case 1
    then show ?thesis
      using Finite
      by (simp add: double_pow_def double_of_int_2 int_value_2 round_double_zero
          is_finite_def is_infinite_def)
  next
    case 2
    then show ?thesis
      using Finite double_mul_one
      by (simp add: double_pow_def double_of_int_2 int_value_2 is_finite_def is_infinite_def)
  next
    case 3
    let ?r = "round_double False (m ^ 2) 1 (ex * 2)"
    have z: "m \<noteq> 0" and n: "\<not> (m = 4503599627370496 \<and> ex = - 52)"
      using 3 by blast+
    have pw: "double_pow x 2 = (case ?r of Infinity t \<Rightarrow> Inl OverflowError | _ \<Rightarrow> Inr ?r)"
      by (simp add: double_pow_def double_of_int_2 int_value_2 Let_def Finite z n
          del: One_nat_def)
    have "ex * 2 = ex + ex" by simp
    then have same: "?r = double_mul x x"
      using Finite by (simp only: double_mul.simps power2_eq_square) simp
    show ?thesis
      unfolding pw same
      by (cases "double_mul x x") (simp_all add: is_finite_def is_infinite_def Finite)
  qed
next
  case (Infinity s)
  then show ?thesis
    by (simp add: double_pow_def double_of_int_2 int_value_2 is_finite_def)
next
  case NaN
  then show ?thesis
    by (simp add: double_pow_def double_of_int_2 int_value_2 is_finite_def)
qed

lemma square_1e200:
  "double_mul float_1e200 float_1e200 = Infinity False"
  by (simp add: float_1e200_def round_double_def Let_def)

lemma square_1_5:
  "double_mul float_1_5 float_1_5 = Finite False 5066549580791808 (- 51)"
  by (simp add: float_1_5_def round_double_def Let_def)

section \<open>The claims\<close>

text \<open>
  C1. For every non-negative integer \<open>n\<close>, \<^verbatim>\<open>fibonacci(n)\<close> returns exactly the first
  \<open>n\<close> terms of the reference sequence \<open>F(0) = 0\<close>, \<open>F(1) = 1\<close>, \<open>F(k) = F(k-1) + F(k-2)\<close>:
  the loop computes what the recursive definition does. In particular \<^verbatim>\<open>fibonacci(5)\<close>
  is \<open>[0, 1, 1, 2, 3]\<close> and \<^verbatim>\<open>fibonacci(10)\<close> is \<open>[0, 1, 1, 2, 3, 5, 8, 13, 21, 34]\<close>.
\<close>

theorem fibonacci_refines_spec:
  "fibonacci (int n) = Inr (first_terms n)
   \<and> fibonacci 5 = Inr [0, 1, 1, 2, 3]
   \<and> fibonacci 10 = Inr [0, 1, 1, 2, 3, 5, 8, 13, 21, 34]"
proof -
  have general: "fibonacci (int n) = Inr (first_terms n)"
    using fibonacci_closed [of "int n"] by simp
  have "first_terms (nat 5) = [0, 1, 1, 2, 3]"
    by (simp add: first_terms_def eval_nat_numeral upt_rec)
  then have five: "fibonacci 5 = Inr [0, 1, 1, 2, 3]"
    using fibonacci_closed [of 5] by simp
  have "first_terms (nat 10) = [0, 1, 1, 2, 3, 5, 8, 13, 21, 34]"
    by (simp add: first_terms_def eval_nat_numeral upt_rec)
  then have ten: "fibonacci 10 = Inr [0, 1, 1, 2, 3, 5, 8, 13, 21, 34]"
    using fibonacci_closed [of 10] by simp
  from general five ten show ?thesis by simp
qed

text \<open>
  C2. The edge cases of \<^verbatim>\<open>fibonacci\<close>: for every integer \<open>n \<le> 0\<close> the result is the
  empty list, for \<open>n = 1\<close> it is \<open>[0]\<close>, for \<open>n = 2\<close> it is \<open>[0, 1]\<close>.
\<close>

theorem fibonacci_edge_cases:
  "(n \<le> 0 \<longrightarrow> fibonacci n = Inr [])
   \<and> fibonacci 1 = Inr [0]
   \<and> fibonacci 2 = Inr [0, 1]"
  by (simp add: fibonacci_def fibonacci_run_def)

theorem fibonacci_edge_cases_witness:
  "(-3 :: int) \<le> 0 \<and> fibonacci (-3) = Inr []"
  using fibonacci_edge_cases [of "-3"] by simp

text \<open>
  C3. For every integer \<open>n\<close>, negative ones included, \<^verbatim>\<open>fibonacci(n)\<close> returns a list
  of length \<open>max(n, 0)\<close>.
\<close>

theorem fibonacci_length:
  "\<exists>fs. fibonacci n = Inr fs \<and> int (length fs) = max n 0"
  by (simp add: fibonacci_closed length_first_terms)

text \<open>
  C4. For every integer \<open>n \<ge> 2\<close> and every index \<open>k\<close> with \<open>2 \<le> k < n\<close>, the element
  of \<^verbatim>\<open>fibonacci(n)\<close> at \<open>k\<close> is the sum of its elements at \<open>k - 1\<close> and \<open>k - 2\<close>.
\<close>

theorem fibonacci_recurrence:
  assumes "2 \<le> n" and "2 \<le> k" and "k < n"
  shows "\<exists>fs a b c. fibonacci n = Inr fs
           \<and> getitem fs k = Inr c \<and> getitem fs (k - 1) = Inr a \<and> getitem fs (k - 2) = Inr b
           \<and> c = a + b"
proof -
  define j where "j = nat (k - 2)"
  have k: "k = int j + 2" using assms(2) by (simp add: j_def)
  have lt: "k < int (nat n)" using assms by simp
  have c: "getitem (first_terms (nat n)) k = Inr (spec_F (Suc (Suc j)))"
    using k lt by (simp add: getitem_first_terms nat_add_distrib)
  have a: "getitem (first_terms (nat n)) (k - 1) = Inr (spec_F (Suc j))"
    using k lt by (simp add: getitem_first_terms nat_add_distrib)
  have b: "getitem (first_terms (nat n)) (k - 2) = Inr (spec_F j)"
    using k lt by (simp add: getitem_first_terms)
  show ?thesis
    using a b c by (simp add: fibonacci_closed)
qed

theorem fibonacci_recurrence_witness:
  "(2 :: int) \<le> 6 \<and> (2 :: int) \<le> 4 \<and> (4 :: int) < 6
   \<and> fibonacci 6 = Inr [0, 1, 1, 2, 3, 5]
   \<and> (\<exists>fs a b c. fibonacci 6 = Inr fs
           \<and> getitem fs 4 = Inr c \<and> getitem fs (4 - 1) = Inr a \<and> getitem fs (4 - 2) = Inr b
           \<and> c = a + b)"
proof -
  have "first_terms (nat 6) = [0, 1, 1, 2, 3, 5]"
    by (simp add: first_terms_def eval_nat_numeral upt_rec)
  then have "fibonacci 6 = Inr [0, 1, 1, 2, 3, 5]"
    using fibonacci_closed [of 6] by simp
  then show ?thesis
    using fibonacci_recurrence [of 6 4] by simp
qed

text \<open>
  C5. For every name \<open>s\<close>, \<^verbatim>\<open>greet(s)\<close> is the text \<^verbatim>\<open>Hello, \<close> followed by \<open>s\<close>
  followed by \<^verbatim>\<open>! Welcome to Jupyter notebooks!\<close>.
\<close>

theorem greet_concat:
  "greet s = ''Hello, '' @ s @ ''! Welcome to Jupyter notebooks!''"
  by (simp add: greet_def fstring_def format_str_def)

text \<open>
  C6, as amended. For every integer \<open>x\<close>, \<^verbatim>\<open>calculate_square(x)\<close> equals \<^verbatim>\<open>x * x\<close>.
  For a float \<open>x\<close>, \<^verbatim>\<open>calculate_square(x)\<close> is the outcome of the host's float power
  \<^verbatim>\<open>x ** 2\<close>, and it equals \<^verbatim>\<open>x * x\<close> exactly where that power returns the host's
  product of \<open>x\<close> with itself; it does not where the product overflows.
\<close>

theorem calculate_square_product:
  "calculate_square fpow tofloat (PyInt i) = py_mul fmul tofloat (PyInt i) (PyInt i)
   \<and> calculate_square fpow tofloat (PyInt i) = Inr (PyInt (i * i))
   \<and> calculate_square fpow tofloat (PyFloat x) = as_float (fpow x 2)
   \<and> ((calculate_square fpow tofloat (PyFloat x) = py_mul fmul tofloat (PyFloat x) (PyFloat x))
        = (fpow x 2 = Inr (fmul x x)))"
proof -
  have ints: "calculate_square fpow tofloat (PyInt i) = Inr (PyInt (i * i))"
    by (rule calculate_square_int)
  have prod: "py_mul fmul tofloat (PyInt i) (PyInt i) = Inr (PyInt (i * i))"
    by (simp add: py_mul_def)
  have power: "calculate_square fpow tofloat (PyFloat x) = as_float (fpow x 2)"
    by (simp add: calculate_square_def py_pow_def)
  have floats: "(calculate_square fpow tofloat (PyFloat x)
                   = py_mul fmul tofloat (PyFloat x) (PyFloat x))
                = (fpow x 2 = Inr (fmul x x))"
    by (cases "fpow x 2") (simp_all add: power py_mul_def as_float_def)
  from ints prod power floats show ?thesis by simp
qed

text \<open>
  The amended statement on the host of doubles, at the integer \<open>3\<close> and at the float
  \<^verbatim>\<open>1.5\<close>, whose square \<^verbatim>\<open>2.25\<close> is the double \<open>5066549580791808 * 2 ^ (-51)\<close>: there
  the power returns the product and the two sides agree.
\<close>

theorem calculate_square_product_witness:
  "calculate_square double_pow double_of_int (PyInt 3) = Inr (PyInt 9)
   \<and> double_pow float_1_5 2 = Inr (double_mul float_1_5 float_1_5)
   \<and> calculate_square double_pow double_of_int (PyFloat float_1_5)
       = py_mul double_mul double_of_int (PyFloat float_1_5) (PyFloat float_1_5)
   \<and> py_mul double_mul double_of_int (PyFloat float_1_5) (PyFloat float_1_5)
       = Inr (PyFloat (Finite False 5066549580791808 (- 51)))"
proof -
  have "double_pow float_1_5 2 = Inr (double_mul float_1_5 float_1_5)"
    by (simp add: double_pow_2 square_1_5 is_infinite_def)
  then show ?thesis
    using calculate_square_product [of double_pow double_of_int 3 double_mul float_1_5]
    by (simp add: square_1_5 py_mul_def as_float_def)
qed

text \<open>
  C6 as the specification has it, for every float too, fails at the float \<^verbatim>\<open>1e200\<close>: the square
  overflows, \<^verbatim>\<open>1e200 ** 2\<close> raises \<^verbatim>\<open>OverflowError\<close> and \<^verbatim>\<open>1e200 * 1e200\<close> is
  infinity.
\<close>

theorem calculate_square_product_counterexample:
  "calculate_square double_pow double_of_int (PyFloat float_1e200) = Inl OverflowError
   \<and> py_mul double_mul double_of_int (PyFloat float_1e200) (PyFloat float_1e200)
       = Inr (PyFloat (Infinity False))
   \<and> calculate_square double_pow double_of_int (PyFloat float_1e200)
       \<noteq> py_mul double_mul double_of_int (PyFloat float_1e200) (PyFloat float_1e200)"
proof -
  have "is_finite float_1e200"
    by (simp add: float_1e200_def is_finite_def)
  then show ?thesis
    by (simp add: calculate_square_def py_pow_def py_mul_def as_float_def double_pow_2
        square_1e200 is_infinite_def)
qed

text \<open>
  C7. \<^verbatim>\<open>calculate_square\<close> keeps the kind of its argument: on an integer it returns an
  integer; on a float its outcome is the outcome of the host's float power, as a float;
  so whatever it returns has the kind of the argument.
\<close>

theorem calculate_square_kind:
  "(\<exists>y. calculate_square fpow tofloat (PyInt i) = Inr y \<and> kind_of y = IntKind)
   \<and> calculate_square fpow tofloat (PyFloat x) = as_float (fpow x 2)
   \<and> (calculate_square fpow tofloat v = Inr r \<longrightarrow> kind_of r = kind_of v)"
  by (cases v) (auto simp add: calculate_square_def py_pow_def as_float_def split: sum.splits)

theorem calculate_square_kind_witness:
  "calculate_square (\<lambda>x e. Inr (x powi e)) (\<lambda>i. Inr (of_int i)) (PyFloat (3 / 2 :: real))
     = Inr (PyFloat (9 / 4))
   \<and> kind_of (PyFloat (9 / 4 :: real)) = kind_of (PyFloat (3 / 2 :: real))"
  using calculate_square_kind [of "\<lambda>x e. Inr (x powi e)" "\<lambda>i. Inr (of_int i)" 0
      "3 / 2" "PyFloat (3 / 2)" "PyFloat (9 / 4)"]
  by (simp add: calculate_square_def py_pow_def as_float_def power2_eq_square)


text \<open>
  C9. For every integer \<open>n\<close>, every element of \<^verbatim>\<open>fibonacci(n)\<close> is a non-negative
  integer and the list is non-decreasing.
\<close>

theorem fibonacci_nonneg_sorted:
  "\<exists>fs. fibonacci n = Inr fs \<and> (\<forall>x \<in> set fs. 0 \<le> x) \<and> sorted fs"
  by (simp add: fibonacci_closed sorted_first_terms nonneg_first_terms)

theorem fibonacci_nonneg_sorted_witness:
  "fibonacci 7 = Inr [0, 1, 1, 2, 3, 5, 8]
   \<and> (\<exists>fs. fibonacci 7 = Inr fs \<and> list_all (\<lambda>x. 0 \<le> x) fs \<and> sorted fs)"
proof -
  have "first_terms (nat 7) = [0, 1, 1, 2, 3, 5, 8]"
    by (simp add: first_terms_def eval_nat_numeral upt_rec)
  then have "fibonacci 7 = Inr [0, 1, 1, 2, 3, 5, 8]"
    using fibonacci_closed [of 7] by simp
  then show ?thesis
    using fibonacci_nonneg_sorted [of 7] by (simp add: list_all_iff)
qed

text \<open>
  C10. \<^verbatim>\<open>fibonacci\<close> returns a list for every integer \<open>n\<close>, however negative: the
  first \<open>max(n, 0)\<close> terms. The body of its loop is entered exactly \<open>max(n - 2, 0)\<close>
  times; the subscripts it evaluates are \<open>i - 1\<close> and \<open>i - 2\<close> on a list of length \<open>i\<close>,
  for \<open>i\<close> from \<open>2\<close> to \<open>n - 1\<close> in turn, two for each pass, all of them in range, so no
  exception is raised.
\<close>

theorem fibonacci_total_in_bounds:
  "\<exists>l. fibonacci_run n = Inr (first_terms (nat n), l)
       \<and> fibonacci n = Inr (first_terms (nat n))
       \<and> int (length (first_terms (nat n))) = max n 0
       \<and> int (iterations l) = max (n - 2) 0
       \<and> subscripts l = concat (map reads_at [2..n - 1])
       \<and> length (subscripts l) = 2 * iterations l \<and> in_bounds l"
proof -
  obtain l where l: "fibonacci_run n = Inr (first_terms (nat n), l)"
      "iterations l = nat (n - 2)" "in_bounds l" "length (subscripts l) = 2 * iterations l"
      "subscripts l = concat (map reads_at [2..n - 1])"
    using fibonacci_run_closed by blast
  have "int (iterations l) = max (n - 2) 0"
    using l(2) by simp
  moreover have "int (length (first_terms (nat n))) = max n 0"
    by (simp add: length_first_terms)
  ultimately show ?thesis
    using l(1,3,4,5) by (simp add: fibonacci_def)
qed

end
